theory Spec2Isabelle
  imports Main
begin

section \<open>Data model\<close>

text \<open>
  The pipeline (\<^verbatim>\<open>facebook_pages_pipeline.py\<close>) reshapes JSON answers of the Graph API
  into flat rows. A JSON value is what \<^verbatim>\<open>response.json()\<close> returns; Python's \<^verbatim>\<open>None\<close>
  is \<open>JNull\<close>. Floating point numbers take part in no decision of the code and are left
  out of the datatype.
\<close>

datatype json =
    JNull
  | JBool bool
  | JInt int
  | JStr string
  | JArr "json list"
  | JObj "(string \<times> json) list"

text \<open>
  A Python \<^verbatim>\<open>dict\<close> is an association list in insertion order. \<^verbatim>\<open>d[k] = v\<close> replaces
  the value in place when the key is there and appends the pair otherwise; \<^verbatim>\<open>d.get(k)\<close> is
  \<^const>\<open>map_of\<close>, \<^verbatim>\<open>k in d\<close> is \<open>map_of d k \<noteq> None\<close>.
\<close>

type_synonym ('k, 'v) dict = "('k \<times> 'v) list"

primrec setitem :: "'k \<Rightarrow> 'v \<Rightarrow> ('k, 'v) dict \<Rightarrow> ('k, 'v) dict" where
  "setitem k v [] = [(k, v)]"
| "setitem k v (p # ps) = (if fst p = k then (k, v) # ps else p # setitem k v ps)"

text \<open>
  An item of the post listing and of the page endpoint is a JSON object: its keys are
  strings. The rows built for the two metric relations are keyed by what
  \<^verbatim>\<open>metric.get("name")\<close> returns, a string or \<^verbatim>\<open>None\<close> when the object has no name:
  their keys are \<open>string option\<close>, \<open>None\<close> being Python's \<^verbatim>\<open>None\<close> as a key.
\<close>

type_synonym item = "(string, json) dict"
type_synonym row = "(string option, json) dict"

text \<open>
  The insights objects \<^verbatim>\<open>{"name": ..., "period": ..., "values": [{"end_time": ...,
  "value": ...}, ...]}\<close> the code walks with \<^verbatim>\<open>.get\<close>. A field is \<open>None\<close> when its key
  is absent, which is what \<^verbatim>\<open>.get\<close> tells apart; \<^verbatim>\<open>period\<close>, \<^verbatim>\<open>end_time\<close> and
  \<^verbatim>\<open>value\<close> are any JSON value, since the code only compares, tests or stores them.
\<close>

record value_entry =
  ve_end_time :: "json option"
  ve_value :: "json option"

record metric_response =
  mr_name :: "string option"
  mr_period :: "json option"
  mr_values :: "value_entry list option"

text \<open>
  A post as the listing \<^verbatim>\<open>/{page_id}/posts?fields=id,created_time\<close> documents it: an
  object with a string \<^verbatim>\<open>id\<close> and, possibly, a \<^verbatim>\<open>created_time\<close>.
\<close>

record post =
  p_id :: string
  p_created_time :: "json option"

subsection \<open>The environment: clock, date parser, HTTP\<close>

text \<open>
  \<^verbatim>\<open>datetime.now()\<close> is read many times in a run and need not return the same instant
  twice. The clock is a function of the number of effects performed so far, a counter
  the model threads through the code; a reading offers the two renderings the code
  takes, \<^verbatim>\<open>now.isoformat()\<close> and \<^verbatim>\<open>now.date().isoformat()\<close>.

  \<^verbatim>\<open>datetime.fromisoformat(s).date().isoformat()\<close> belongs to Python's library, not to
  the repository: it is the parameter \<open>fromisoformat_date\<close>, \<open>None\<close> where
  \<^verbatim>\<open>fromisoformat\<close> raises \<^verbatim>\<open>ValueError\<close>.

  \<^verbatim>\<open>requests.get(url, params=...)\<close>, \<^verbatim>\<open>raise_for_status()\<close> and \<^verbatim>\<open>.json()\<close> together
  either raise a \<^verbatim>\<open>requests.RequestException\<close> or deliver the decoded body, which is any
  JSON value: nothing makes it an object, or its \<^verbatim>\<open>"data"\<close> a list. The answer depends
  on the moment of the call and on the URL (the query parameters are the same for every
  per-post call).

  \<^verbatim>\<open>str()\<close>, which the f-string of the per-post URL applies to \<^verbatim>\<open>post_id\<close>, is the
  parameter \<open>py_str\<close>; the model asks it only for values that are not strings.
\<close>

record reading =
  isoformat :: string
  date_isoformat :: string

datatype request_exception = RequestException

record env =
  now :: "nat \<Rightarrow> reading"
  fromisoformat_date :: "string \<Rightarrow> string option"
  py_str :: "json \<Rightarrow> string"
  get_posts :: "nat \<Rightarrow> string \<Rightarrow> request_exception + json"
  get_insights :: "nat \<Rightarrow> string \<Rightarrow> request_exception + json"

section \<open>Timestamps\<close>

text \<open>\<^verbatim>\<open>s.replace('Z', '+00:00')\<close> replaces every occurrence.\<close>

definition replace_Z :: "string \<Rightarrow> string" where
  "replace_Z s = concat (map (\<lambda>c. if c = CHR ''Z'' then ''+00:00'' else [c]) s)"

text \<open>Python's truth value of a JSON value, as tested by \<^verbatim>\<open>if end_time:\<close>.\<close>

fun truthy :: "json \<Rightarrow> bool" where
  "truthy JNull = False"
| "truthy (JBool b) = b"
| "truthy (JInt i) = (i \<noteq> 0)"
| "truthy (JStr s) = (s \<noteq> [])"
| "truthy (JArr xs) = (xs \<noteq> [])"
| "truthy (JObj kvs) = (kvs \<noteq> [])"

text \<open>
  The body of the two \<^verbatim>\<open>try\<close> blocks that parse a timestamp:
  \<^verbatim>\<open>datetime.fromisoformat(t.replace('Z', '+00:00')).date().isoformat()\<close>. \<open>None\<close> is
  any exception: the \<^verbatim>\<open>ValueError\<close> of the parser, or the \<^verbatim>\<open>AttributeError\<close> of
  \<^verbatim>\<open>.replace\<close> on a value that is not a string. Both handlers are a bare \<^verbatim>\<open>except:\<close>.
\<close>

fun parse_date :: "env \<Rightarrow> json \<Rightarrow> string option" where
  "parse_date e (JStr s) = fromisoformat_date e (replace_Z s)"
| "parse_date e _ = None"

section \<open>The metric-series flattener\<close>

text \<open>
  \<^verbatim>\<open>flatten_daily_metrics_inner\<close>, lines 133 to 202. The state of the grouping loop is
  the dict \<^verbatim>\<open>metrics_by_date\<close> and the effect counter.
\<close>

type_synonym by_date = "(string, row) dict \<times> nat"

definition new_date_entry :: "string \<Rightarrow> string \<Rightarrow> string \<Rightarrow> row" where
  "new_date_entry page_id date_str extracted_at =
     [(Some ''page_id'', JStr page_id),
      (Some ''date'', JStr date_str),
      (Some ''_extracted_at'', JStr extracted_at)]"

text \<open>
  Lines 158 to 166, for a value-point whose date is known: the entry of the date is
  created when the date is new, which reads the clock, and the metric is stored in it.
\<close>

definition add_metric ::
  "env \<Rightarrow> string \<Rightarrow> string \<Rightarrow> string option \<Rightarrow> json \<Rightarrow> by_date \<Rightarrow> by_date" where
  "add_metric e page_id date_str metric_name value st =
     (case st of (metrics_by_date, n) \<Rightarrow>
        (case map_of metrics_by_date date_str of
           None \<Rightarrow>
             (setitem date_str
                (setitem metric_name value
                   (new_date_entry page_id date_str (isoformat (now e n))))
                metrics_by_date, Suc n)
         | Some metrics \<Rightarrow>
             (setitem date_str (setitem metric_name value metrics) metrics_by_date, n)))"

text \<open>
  The body of \<^verbatim>\<open>for value_entry in values\<close> (lines 146 to 166). A value-point whose
  \<^verbatim>\<open>end_time\<close> is absent or false, or raises in the \<^verbatim>\<open>try\<close> block, leaves the state
  as it is (\<^verbatim>\<open>continue\<close>).
\<close>

definition process_value_entry ::
  "env \<Rightarrow> string \<Rightarrow> string option \<Rightarrow> value_entry \<Rightarrow> by_date \<Rightarrow> by_date" where
  "process_value_entry e page_id metric_name value_entry st =
     (let end_time = (case ve_end_time value_entry of None \<Rightarrow> JNull | Some t \<Rightarrow> t);
          value = (case ve_value value_entry of None \<Rightarrow> JNull | Some v \<Rightarrow> v)
      in if truthy end_time then
           (case parse_date e end_time of
              None \<Rightarrow> st
            | Some date_str \<Rightarrow> add_metric e page_id date_str metric_name value st)
         else st)"

text \<open>
  The body of \<^verbatim>\<open>for metric_response in items\<close> (lines 140 to 166);
  \<^verbatim>\<open>period = metric_response.get("period", "day")\<close> and
  \<^verbatim>\<open>values = metric_response.get("values", [])\<close>.
\<close>

definition process_metric_response ::
  "env \<Rightarrow> string \<Rightarrow> metric_response \<Rightarrow> by_date \<Rightarrow> by_date" where
  "process_metric_response e page_id metric_response st =
     (let metric_name = mr_name metric_response;
          values = (case mr_values metric_response of None \<Rightarrow> [] | Some vs \<Rightarrow> vs);
          period = (case mr_period metric_response of None \<Rightarrow> JStr ''day'' | Some p \<Rightarrow> p)
      in if period = JStr ''day'' \<and> values \<noteq> []
         then fold (process_value_entry e page_id metric_name) values st
         else st)"

definition group_by_date :: "env \<Rightarrow> nat \<Rightarrow> string \<Rightarrow> metric_response list \<Rightarrow> by_date" where
  "group_by_date e n page_id items = fold (process_metric_response e page_id) items ([], n)"

text \<open>The dict literal \<^verbatim>\<open>missing_metrics\<close> (lines 171 to 195).\<close>

definition missing_metrics :: row where
  "missing_metrics =
     [(Some ''page_negative_feedback'', JNull),
      (Some ''page_impressions_organic'', JNull),
      (Some ''page_fans_online_per_day'', JNull),
      (Some ''page_places_checkin_total'', JNull),
      (Some ''page_video_complete_views_30_s'', JNull),
      (Some ''page_video_complete_views_30_s_autoplayed'', JNull),
      (Some ''page_video_complete_views_30_s_click_to_play'', JNull),
      (Some ''page_video_complete_views_30_s_organic'', JNull),
      (Some ''page_video_complete_views_30_s_paid'', JNull),
      (Some ''page_video_complete_views_30_s_repeat_views'', JNull),
      (Some ''page_video_repeat_views'', JNull),
      (Some ''page_video_view_time'', JNull),
      (Some ''page_video_views_10_s'', JNull),
      (Some ''page_video_views_10_s_autoplayed'', JNull),
      (Some ''page_video_views_10_s_click_to_play'', JNull),
      (Some ''page_video_views_10_s_organic'', JNull),
      (Some ''page_video_views_10_s_paid'', JNull),
      (Some ''page_video_views_10_s_repeat'', JNull),
      (Some ''page_video_views_autoplayed'', JNull),
      (Some ''page_video_views_click_to_play'', JNull),
      (Some ''page_video_views_organic'', JNull),
      (Some ''page_video_views_paid'', JNull)]"

text \<open>
  Lines 198 to 200:
  \<^verbatim>\<open>for metric_name, default_value in missing_metrics.items():
      if metric_name not in metrics: metrics[metric_name] = default_value\<close>
\<close>

definition add_missing :: "row \<Rightarrow> row \<Rightarrow> row" where
  "add_missing defaults metrics =
     fold (\<lambda>(metric_name, default_value) m.
             case map_of m metric_name of
               None \<Rightarrow> setitem metric_name default_value m
             | Some _ \<Rightarrow> m)
          defaults metrics"

text \<open>
  The transformer: group, then yield one record per date in the insertion order of
  \<^verbatim>\<open>metrics_by_date\<close>, each completed with the missing metrics. No statement of
  the function can raise outside a \<^verbatim>\<open>try\<close> block on inputs of these types, so the result
  is the list of yielded records.
\<close>

definition flatten_daily_metrics_inner ::
  "env \<Rightarrow> nat \<Rightarrow> string \<Rightarrow> metric_response list \<Rightarrow> row list" where
  "flatten_daily_metrics_inner e n page_id items =
     map (\<lambda>(date_str, metrics). add_missing missing_metrics metrics)
         (fst (group_by_date e n page_id items))"

section \<open>The post enrichment transform\<close>

datatype py_error = TypeError | AttributeError | IndexError | KeyError

text \<open>\<^verbatim>\<open>s.split(sep)\<close> for a separator of one character: the pieces between occurrences.\<close>

fun str_split :: "char \<Rightarrow> string \<Rightarrow> string list" where
  "str_split sep [] = [[]]"
| "str_split sep (c # cs) =
     (if c = sep then [] # str_split sep cs
      else (case str_split sep cs of
              [] \<Rightarrow> [[c]]
            | w # ws \<Rightarrow> (c # w) # ws))"

text \<open>
  \<^verbatim>\<open>"_" in post_id\<close>: a substring test on a string, an element test on a list, a key
  test on a dict, and a \<^verbatim>\<open>TypeError\<close> on \<^verbatim>\<open>None\<close>, a boolean or a number.
\<close>

fun contains_underscore :: "json \<Rightarrow> py_error + bool" where
  "contains_underscore (JStr s) = Inr (CHR ''_'' \<in> set s)"
| "contains_underscore (JArr xs) = Inr (JStr ''_'' \<in> set xs)"
| "contains_underscore (JObj kvs) = Inr (''_'' \<in> fst ` set kvs)"
| "contains_underscore _ = Inl TypeError"

text \<open>
  \<^verbatim>\<open>post_id.split("_")[0]\<close>: only a string has \<^verbatim>\<open>.split\<close>; the index \<^verbatim>\<open>[0]\<close> raises on
  an empty list.
\<close>

fun split_first :: "json \<Rightarrow> py_error + string" where
  "split_first (JStr s) =
     (case str_split CHR ''_'' s of [] \<Rightarrow> Inl IndexError | x # _ \<Rightarrow> Inr x)"
| "split_first _ = Inl AttributeError"

text \<open>
  The body of the loop of \<^verbatim>\<open>add_post_fields\<close> (lines 223 to 229), for one item, with
  \<^verbatim>\<open>post_id = item.get("id", "")\<close>. \<open>Inl\<close> is the exception that leaves the generator.
\<close>

definition add_post_fields_item :: "env \<Rightarrow> nat \<Rightarrow> item \<Rightarrow> py_error + item" where
  "add_post_fields_item e n item =
     (let post_id = (case map_of item ''id'' of None \<Rightarrow> JStr [] | Some v \<Rightarrow> v)
      in case contains_underscore post_id of
           Inl err \<Rightarrow> Inl err
         | Inr True \<Rightarrow>
             (case split_first post_id of
                Inl err \<Rightarrow> Inl err
              | Inr page_id \<Rightarrow>
                  Inr (setitem ''_extracted_at'' (JStr (isoformat (now e n)))
                         (setitem ''page_id'' (JStr page_id) item)))
         | Inr False \<Rightarrow>
             Inr (setitem ''_extracted_at'' (JStr (isoformat (now e n))) item))"

text \<open>
  The generator: the items yielded, and the exception that ended it, if any. Each item
  yielded has read the clock once.
\<close>

fun add_post_fields :: "env \<Rightarrow> nat \<Rightarrow> item list \<Rightarrow> item list \<times> py_error option" where
  "add_post_fields e n [] = ([], None)"
| "add_post_fields e n (item # items) =
     (case add_post_fields_item e n item of
        Inl err \<Rightarrow> ([], Some err)
      | Inr item' \<Rightarrow>
          (case add_post_fields e (Suc n) items of
             (yielded, err) \<Rightarrow> (item' # yielded, err)))"

section \<open>The post-metrics fan-out resource\<close>

text \<open>
  The metric columns of the dict literal \<^verbatim>\<open>base_record\<close> (lines 294 to 332), all
  initialised to \<^verbatim>\<open>None\<close>.
\<close>

definition post_metrics_catalog :: "string list" where
  "post_metrics_catalog =
     [''post_clicks'',
      ''post_engaged_fan'',
      ''post_engaged_users'',
      ''post_impressions'',
      ''post_impressions_fan'',
      ''post_impressions_nonviral'',
      ''post_impressions_organic'',
      ''post_impressions_paid'',
      ''post_impressions_viral'',
      ''post_negative_feedback'',
      ''post_reactions_anger_total'',
      ''post_reactions_haha_total'',
      ''post_reactions_like_total'',
      ''post_reactions_love_total'',
      ''post_reactions_sorry_total'',
      ''post_reactions_wow_total'',
      ''post_video_avg_time_watched'',
      ''post_video_complete_views_30_s_autoplayed'',
      ''post_video_complete_views_30_s_clicked_to_play'',
      ''post_video_complete_views_30_s_organic'',
      ''post_video_complete_views_30_s_paid'',
      ''post_video_complete_views_organic'',
      ''post_video_complete_views_paid'',
      ''post_video_length'',
      ''post_video_view_time'',
      ''post_video_view_time_organic'',
      ''post_video_views'',
      ''post_video_views_10_s'',
      ''post_video_views_10_s_autoplayed'',
      ''post_video_views_10_s_clicked_to_play'',
      ''post_video_views_10_s_organic'',
      ''post_video_views_10_s_paid'',
      ''post_video_views_10_s_sound_on'',
      ''post_video_views_15_s'',
      ''post_video_views_autoplayed'',
      ''post_video_views_clicked_to_play'',
      ''post_video_views_organic'',
      ''post_video_views_paid'',
      ''post_video_views_sound_on'']"

text \<open>
  The dict literal \<^verbatim>\<open>base_record\<close> (lines 289 to 333). \<^verbatim>\<open>post_id\<close> is what
  \<^verbatim>\<open>post["id"]\<close> returned, any JSON value.
\<close>

definition base_record :: "json \<Rightarrow> string \<Rightarrow> string \<Rightarrow> row" where
  "base_record post_id date_str extracted_at =
     [(Some ''post_id'', post_id),
      (Some ''date'', JStr date_str),
      (Some ''_extracted_at'', JStr extracted_at)]
     @ map (\<lambda>k. (Some k, JNull)) post_metrics_catalog"

text \<open>
  Lines 279 to 286: the date of the post, and the effect counter after it. The clock is
  read only on the two fallback paths. \<open>created_time\<close> is \<open>None\<close> when the post has no
  such key, where \<^verbatim>\<open>post.get("created_time")\<close> is \<^verbatim>\<open>None\<close>.
\<close>

definition post_date :: "env \<Rightarrow> nat \<Rightarrow> json option \<Rightarrow> string \<times> nat" where
  "post_date e n created_time =
     (let post_created_time = (case created_time of None \<Rightarrow> JNull | Some t \<Rightarrow> t)
      in if truthy post_created_time then
           (case parse_date e post_created_time of
              Some date_str \<Rightarrow> (date_str, n)
            | None \<Rightarrow> (date_isoformat (now e n), Suc n))
         else (date_isoformat (now e n), Suc n))"

subsection \<open>What Python does on a decoded JSON value\<close>

text \<open>
  The operations of lines 274 to 356 on the values \<^verbatim>\<open>.json()\<close> returns, with the
  exception each raises on a value of another type. A number, a boolean and \<^verbatim>\<open>None\<close>
  have no \<^verbatim>\<open>.get\<close>, no length, no items and cannot be iterated; a string and a list
  have no \<^verbatim>\<open>.get\<close> either.

  \<^verbatim>\<open>v.get(key, dflt)\<close>:
\<close>

fun py_get :: "json \<Rightarrow> string \<Rightarrow> json \<Rightarrow> py_error + json" where
  "py_get (JObj kvs) key dflt = Inr (case map_of kvs key of None \<Rightarrow> dflt | Some v \<Rightarrow> v)"
| "py_get _ key dflt = Inl AttributeError"

text \<open>
  \<^verbatim>\<open>for x in v\<close>: the elements of a list, the characters of a string, the keys of a
  dict.
\<close>

fun py_iter :: "json \<Rightarrow> py_error + json list" where
  "py_iter (JArr xs) = Inr xs"
| "py_iter (JStr s) = Inr (map (\<lambda>c. JStr [c]) s)"
| "py_iter (JObj kvs) = Inr (map (\<lambda>kv. JStr (fst kv)) kvs)"
| "py_iter _ = Inl TypeError"

text \<open>\<^verbatim>\<open>len(v)\<close>:\<close>

fun py_len :: "json \<Rightarrow> py_error + nat" where
  "py_len (JArr xs) = Inr (length xs)"
| "py_len (JStr s) = Inr (length s)"
| "py_len (JObj kvs) = Inr (length kvs)"
| "py_len _ = Inl TypeError"

text \<open>
  \<^verbatim>\<open>v[0]\<close>: the first element of a list, the first character of a string; the keys
  of a decoded dict are strings, so \<^verbatim>\<open>0\<close> is none of them.
\<close>

fun py_item0 :: "json \<Rightarrow> py_error + json" where
  "py_item0 (JArr (x # xs)) = Inr x"
| "py_item0 (JArr []) = Inl IndexError"
| "py_item0 (JStr (c # cs)) = Inr (JStr [c])"
| "py_item0 (JStr []) = Inl IndexError"
| "py_item0 (JObj kvs) = Inl KeyError"
| "py_item0 _ = Inl TypeError"

text \<open>
  \<^verbatim>\<open>name in record\<close> for a record whose keys are strings or \<^verbatim>\<open>None\<close>: a list or
  a dict cannot be hashed, a number or a boolean is no key of the record. The result is
  the key under which the name is found.
\<close>

fun py_key_in :: "json \<Rightarrow> row \<Rightarrow> py_error + string option option" where
  "py_key_in (JStr s) r = Inr (if map_of r (Some s) \<noteq> None then Some (Some s) else None)"
| "py_key_in JNull r = Inr (if map_of r None \<noteq> None then Some None else None)"
| "py_key_in (JBool b) r = Inr None"
| "py_key_in (JInt i) r = Inr None"
| "py_key_in (JArr xs) r = Inl TypeError"
| "py_key_in (JObj kvs) r = Inl TypeError"

subsection \<open>The loop over the metrics of an answer\<close>

text \<open>
  The body of \<^verbatim>\<open>for metric in metrics_data.get("data", [])\<close> (lines 349 to 356) on a
  metric object of the documented shape. \<^verbatim>\<open>metric_name in base_record\<close> is a test on
  all the keys of the record.
\<close>

definition update_metric :: "metric_response \<Rightarrow> row \<Rightarrow> row" where
  "update_metric metric record =
     (let metric_name = mr_name metric;
          metric_values = (case mr_values metric of None \<Rightarrow> [] | Some vs \<Rightarrow> vs)
      in case metric_values of
           [] \<Rightarrow> record
         | first # _ \<Rightarrow>
             (let metric_value = (case ve_value first of None \<Rightarrow> JNull | Some v \<Rightarrow> v)
              in if map_of record metric_name \<noteq> None
                 then setitem metric_name metric_value record
                 else record))"

text \<open>
  The same body on any JSON value, statement by statement, with the exceptions of
  Python. The \<^verbatim>\<open>try\<close> block around the loop catches only
  \<^verbatim>\<open>requests.RequestException\<close> (line 358), so each of them leaves the generator.
\<close>

definition update_record :: "json \<Rightarrow> row \<Rightarrow> py_error + row" where
  "update_record metric record =
     (case py_get metric ''name'' JNull of
        Inl err \<Rightarrow> Inl err
      | Inr metric_name \<Rightarrow>
     (case py_get metric ''values'' (JArr []) of
        Inl err \<Rightarrow> Inl err
      | Inr metric_values \<Rightarrow>
          if truthy metric_values then
            (case py_len metric_values of
               Inl err \<Rightarrow> Inl err
             | Inr l \<Rightarrow>
                 if l > 0 then
                   (case py_item0 metric_values of
                      Inl err \<Rightarrow> Inl err
                    | Inr first \<Rightarrow>
                   (case py_get first ''value'' JNull of
                      Inl err \<Rightarrow> Inl err
                    | Inr metric_value \<Rightarrow>
                   (case py_key_in metric_name record of
                      Inl err \<Rightarrow> Inl err
                    | Inr None \<Rightarrow> Inr record
                    | Inr (Some key) \<Rightarrow> Inr (setitem key metric_value record))))
                 else Inr record)
          else Inr record))"

fun update_all :: "json list \<Rightarrow> row \<Rightarrow> py_error + row" where
  "update_all [] record = Inr record"
| "update_all (metric # metrics) record =
     (case update_record metric record of
        Inl err \<Rightarrow> Inl err
      | Inr record' \<Rightarrow> update_all metrics record')"

text \<open>
  What \<^verbatim>\<open>for x in body.get("data", [])\<close> goes through, for the body of an answer
  (line 348) and for that of the listing (line 274).
\<close>

definition data_items :: "json \<Rightarrow> py_error + json list" where
  "data_items body =
     (case py_get body ''data'' (JArr []) of
        Inl err \<Rightarrow> Inl err
      | Inr data \<Rightarrow> py_iter data)"

text \<open>Lines 348 to 356 for a decoded answer.\<close>

definition apply_answer :: "json \<Rightarrow> row \<Rightarrow> py_error + row" where
  "apply_answer metrics_data record =
     (case data_items metrics_data of
        Inl err \<Rightarrow> Inl err
      | Inr metrics \<Rightarrow> update_all metrics record)"

subsection \<open>The loop over the posts\<close>

text \<open>
  The f-string of line 337: a string is put into the URL as it is, any other value
  through \<^verbatim>\<open>str()\<close>.
\<close>

fun format_id :: "env \<Rightarrow> json \<Rightarrow> string" where
  "format_id e (JStr s) = s"
| "format_id e v = py_str e v"

definition insights_url :: "string \<Rightarrow> string" where
  "insights_url post_id = ''https://graph.facebook.com/v22.0/'' @ post_id @ ''/insights''"

text \<open>
  The body of \<^verbatim>\<open>for post in posts_data.get("data", [])\<close> (lines 275 to 363): the record
  yielded for the post and the effect counter after it, or the exception that leaves
  the generator. \<^verbatim>\<open>post["id"]\<close> raises \<^verbatim>\<open>KeyError\<close> on a dict without the key and
  \<^verbatim>\<open>TypeError\<close> on a value that is not a dict. The clock is read for
  \<^verbatim>\<open>_extracted_at\<close>, then the per-post request is made; a \<^verbatim>\<open>RequestException\<close> is
  caught and the record is yielded as it was initialised, any other exception of the
  \<^verbatim>\<open>try\<close> block is not caught.
\<close>

fun process_post :: "env \<Rightarrow> nat \<Rightarrow> json \<Rightarrow> py_error + row \<times> nat" where
  "process_post e n (JObj post) =
     (case map_of post ''id'' of
        None \<Rightarrow> Inl KeyError
      | Some post_id \<Rightarrow>
          (case post_date e n (map_of post ''created_time'') of
             (date_str, n1) \<Rightarrow>
               (let record = base_record post_id date_str (isoformat (now e n1));
                    n2 = Suc n1
                in case get_insights e n2 (insights_url (format_id e post_id)) of
                     Inl RequestException \<Rightarrow> Inr (record, Suc n2)
                   | Inr metrics_data \<Rightarrow>
                       (case apply_answer metrics_data record of
                          Inl err \<Rightarrow> Inl err
                        | Inr record' \<Rightarrow> Inr (record', Suc n2)))))"
| "process_post e n _ = Inl TypeError"





subsection \<open>Inputs of the documented shape, as JSON\<close>

text \<open>
  The JSON value of a value-point, a metric object, an answer, a post and a listing of
  the documented shape: an absent field is an absent key.
\<close>

definition entry_json :: "value_entry \<Rightarrow> json" where
  "entry_json ve =
     JObj ((case ve_end_time ve of None \<Rightarrow> [] | Some t \<Rightarrow> [(''end_time'', t)]) @
           (case ve_value ve of None \<Rightarrow> [] | Some v \<Rightarrow> [(''value'', v)]))"

definition metric_json :: "metric_response \<Rightarrow> json" where
  "metric_json m =
     JObj ((case mr_name m of None \<Rightarrow> [] | Some s \<Rightarrow> [(''name'', JStr s)]) @
           (case mr_period m of None \<Rightarrow> [] | Some p \<Rightarrow> [(''period'', p)]) @
           (case mr_values m of None \<Rightarrow> [] | Some vs \<Rightarrow> [(''values'', JArr (map entry_json vs))]))"

definition answer_json :: "metric_response list option \<Rightarrow> json" where
  "answer_json data =
     JObj (case data of None \<Rightarrow> [] | Some ms \<Rightarrow> [(''data'', JArr (map metric_json ms))])"

definition post_json :: "post \<Rightarrow> json" where
  "post_json p =
     JObj ((''id'', JStr (p_id p)) #
           (case p_created_time p of None \<Rightarrow> [] | Some t \<Rightarrow> [(''created_time'', t)]))"

definition listing_json :: "post list option \<Rightarrow> json" where
  "listing_json data =
     JObj (case data of None \<Rightarrow> [] | Some ps \<Rightarrow> [(''data'', JArr (map post_json ps))])"

text \<open>
  What lines 350 to 354 take from a metric object: the \<^verbatim>\<open>"value"\<close> of the first element
  of \<^verbatim>\<open>values\<close> (\<^verbatim>\<open>None\<close>, that is \<open>JNull\<close>, when the element has no such key), and
  nothing when \<^verbatim>\<open>values\<close> is absent or empty.
\<close>

definition first_value :: "metric_response \<Rightarrow> json option" where
  "first_value metric =
     (case mr_values metric of
        None \<Rightarrow> None
      | Some [] \<Rightarrow> None
      | Some (first # _) \<Rightarrow> Some (case ve_value first of None \<Rightarrow> JNull | Some v \<Rightarrow> v))"

text \<open>
  What the grouping loop reads from a value-point: the date it is filed under (\<open>None\<close>
  when the value-point is skipped) and the value stored for it.
\<close>

definition entry_date :: "env \<Rightarrow> value_entry \<Rightarrow> string option" where
  "entry_date e value_entry =
     (let end_time = (case ve_end_time value_entry of None \<Rightarrow> JNull | Some t \<Rightarrow> t)
      in if truthy end_time then parse_date e end_time else None)"

definition entry_value :: "value_entry \<Rightarrow> json" where
  "entry_value value_entry = (case ve_value value_entry of None \<Rightarrow> JNull | Some v \<Rightarrow> v)"

text \<open>
  The value-points of a metric object the grouping loop goes through: all of them when
  the period is \<open>day\<close> (the default of \<^verbatim>\<open>.get("period", "day")\<close> included), none
  otherwise.
\<close>

definition day_values :: "metric_response \<Rightarrow> value_entry list" where
  "day_values metric_response =
     (if (case mr_period metric_response of None \<Rightarrow> JStr ''day'' | Some p \<Rightarrow> p) = JStr ''day''
      then (case mr_values metric_response of None \<Rightarrow> [] | Some vs \<Rightarrow> vs)
      else [])"

text \<open>
  The stores the grouping loop performs, in order, as triples of date, metric name
  and value; \<open>apply_writes\<close> performs a list of them. \<open>cell\<close> reads the value stored for a
  date and a metric name.
\<close>

definition entry_writes ::
  "env \<Rightarrow> string option \<Rightarrow> value_entry list \<Rightarrow> (string \<times> string option \<times> json) list" where
  "entry_writes e metric_name vs =
     List.map_filter
       (\<lambda>ve. map_option (\<lambda>d. (d, metric_name, entry_value ve)) (entry_date e ve)) vs"

definition writes :: "env \<Rightarrow> metric_response \<Rightarrow> (string \<times> string option \<times> json) list" where
  "writes e metric_response =
     entry_writes e (mr_name metric_response) (day_values metric_response)"

definition apply_writes ::
  "env \<Rightarrow> string \<Rightarrow> (string \<times> string option \<times> json) list \<Rightarrow> by_date \<Rightarrow> by_date" where
  "apply_writes e page_id ws st = fold (\<lambda>(d, k, v). add_metric e page_id d k v) ws st"

definition cell :: "(string, row) dict \<Rightarrow> string \<Rightarrow> string option \<Rightarrow> json option" where
  "cell metrics_by_date d k =
     (case map_of metrics_by_date d of None \<Rightarrow> None | Some metrics \<Rightarrow> map_of metrics k)"

definition shape :: "(string, row) dict \<Rightarrow> (string \<times> string option list) list" where
  "shape metrics_by_date = map (\<lambda>(d, metrics). (d, map fst metrics)) metrics_by_date"

text \<open>The keys of a dict are distinct, at both levels of \<^verbatim>\<open>metrics_by_date\<close>.\<close>

definition distinct_keys :: "(string, row) dict \<Rightarrow> bool" where
  "distinct_keys metrics_by_date \<longleftrightarrow>
     distinct (map fst metrics_by_date) \<and>
     (\<forall>(d, metrics) \<in> set metrics_by_date. distinct (map fst metrics))"

text \<open>
  The answer the loop body, started at counter \<open>n\<close>, receives to its request for a post
  of the documented shape: the request is made after the date of the post is taken and
  the clock is read for \<^verbatim>\<open>_extracted_at\<close>.
\<close>

definition insights_answer ::
  "env \<Rightarrow> nat \<Rightarrow> post \<Rightarrow> request_exception + json" where
  "insights_answer e n post =
     get_insights e (Suc (snd (post_date e n (p_created_time post)))) (insights_url (p_id post))"

section \<open>Example inputs\<close>

text \<open>
  A clock whose readings differ at every call, a parser that knows two timestamps, a
  listing of two posts, and per-post answers: the call for post \<open>1234_1\<close> fails, every
  other call delivers one metric with two value-points. No post of the examples has an
  id that is not a string, so \<open>py_str\<close> is never asked.
\<close>

definition example_now :: "nat \<Rightarrow> reading" where
  "example_now n =
     \<lparr>isoformat = ''2024-03-01T12:00:00.'' @ replicate n CHR ''0'' @ ''1'',
      date_isoformat = ''2024-03-01''\<rparr>"

definition example_fromisoformat_date :: "string \<Rightarrow> string option" where
  "example_fromisoformat_date s =
     (if s = ''2024-01-15T08:00:00+00:00'' then Some ''2024-01-15''
      else if s = ''2024-01-16T08:00:00+00:00'' then Some ''2024-01-16''
      else None)"

definition example_posts :: "post list" where
  "example_posts =
     [\<lparr>p_id = ''1234_1'', p_created_time = Some (JStr ''2024-01-15T08:00:00Z'')\<rparr>,
      \<lparr>p_id = ''1234_2'', p_created_time = None\<rparr>]"

definition clicks_metric :: metric_response where
  "clicks_metric =
     \<lparr>mr_name = Some ''post_clicks'', mr_period = Some (JStr ''lifetime''),
      mr_values = Some [\<lparr>ve_end_time = None, ve_value = Some (JInt 7)\<rparr>,
                        \<lparr>ve_end_time = None, ve_value = Some (JInt 8)\<rparr>]\<rparr>"

definition example_env :: env where
  "example_env =
     \<lparr>now = example_now,
      fromisoformat_date = example_fromisoformat_date,
      py_str = (\<lambda>v. ''None''),
      get_posts = (\<lambda>t url. Inr (listing_json (Some example_posts))),
      get_insights = (\<lambda>t url. if url = insights_url ''1234_1'' then Inl RequestException
                               else Inr (answer_json (Some [clicks_metric])))\<rparr>"


text \<open>
  An answer whose metrics carry the names of the identifying fields of the record, and an
  environment that gives this answer to every per-post request.
\<close>

definition identity_metrics :: "metric_response list" where
  "identity_metrics =
     [\<lparr>mr_name = Some ''post_id'', mr_period = Some (JStr ''lifetime''),
       mr_values = Some [\<lparr>ve_end_time = None, ve_value = Some (JStr ''999'')\<rparr>]\<rparr>,
      \<lparr>mr_name = Some ''date'', mr_period = Some (JStr ''lifetime''),
       mr_values = Some [\<lparr>ve_end_time = None, ve_value = Some (JStr ''1999-12-31'')\<rparr>]\<rparr>]"

definition overwrite_env :: env where
  "overwrite_env =
     example_env\<lparr>get_insights := (\<lambda>t url. Inr (answer_json (Some identity_metrics)))\<rparr>"



text \<open>
  Metric objects of the daily insights: a daily metric whose second value-point carries
  no timestamp that parses, the same metric once more with another value for the first
  date, a metric without \<^verbatim>\<open>period\<close>, a metric of the catalog of missing metrics,
  and a weekly one. \<open>fixed_clock_env\<close> is the
  example environment with a clock that stands still.
\<close>

definition not_a_date :: value_entry where
  "not_a_date = \<lparr>ve_end_time = Some (JStr ''not-a-date''), ve_value = Some (JInt 11)\<rparr>"

definition fans_metric :: metric_response where
  "fans_metric =
     \<lparr>mr_name = Some ''page_fans'', mr_period = Some (JStr ''day''),
      mr_values = Some
        [\<lparr>ve_end_time = Some (JStr ''2024-01-15T08:00:00Z''), ve_value = Some (JInt 10)\<rparr>,
         not_a_date,
         \<lparr>ve_end_time = Some (JStr ''2024-01-16T08:00:00Z''), ve_value = Some (JInt 12)\<rparr>]\<rparr>"

definition fans_again :: metric_response where
  "fans_again =
     \<lparr>mr_name = Some ''page_fans'', mr_period = Some (JStr ''day''),
      mr_values = Some
        [\<lparr>ve_end_time = Some (JStr ''2024-01-15T08:00:00Z''), ve_value = Some (JInt 20)\<rparr>]\<rparr>"

definition no_period_metric :: metric_response where
  "no_period_metric =
     \<lparr>mr_name = Some ''page_views_total'', mr_period = None,
      mr_values = Some
        [\<lparr>ve_end_time = Some (JStr ''2024-01-15T08:00:00Z''), ve_value = Some (JInt 7)\<rparr>]\<rparr>"


definition weekly_metric :: metric_response where
  "weekly_metric = no_period_metric\<lparr>mr_period := Some (JStr ''week'')\<rparr>"

definition fixed_clock_env :: env where
  "fixed_clock_env = example_env\<lparr>now := (\<lambda>t. example_now 0)\<rparr>"

text \<open>Two items of the post listing: an id with the separator, and one without.\<close>

definition example_post_item :: item where
  "example_post_item = [(''id'', JStr ''123456_789''), (''message'', JStr ''hello'')]"

definition example_nosep_item :: item where
  "example_nosep_item = [(''id'', JStr ''nopagesep'')]"

section \<open>Dicts\<close>

lemma map_of_setitem: "map_of (setitem k v d) = (map_of d)(k \<mapsto> v)"
  by (induction d) (auto simp: fun_eq_iff)

lemma keys_setitem:
  "map fst (setitem k v d) = (if k \<in> set (map fst d) then map fst d else map fst d @ [k])"
  by (induction d) auto

lemma keys_setitem_present: "map_of d k \<noteq> None \<Longrightarrow> map fst (setitem k v d) = map fst d"
  by (simp add: keys_setitem map_of_eq_None_iff)

section \<open>Properties of the fan-out resource\<close>

subsection \<open>The initial record\<close>

lemma map_of_nulls:
  "map_of (map (\<lambda>k. (Some k, JNull)) ks) (Some k) = (if k \<in> set ks then Some JNull else None)"
  by (induction ks) auto

lemma map_of_nulls_None: "map_of (map (\<lambda>k. (Some k, JNull)) ks) None = None"
  by (induction ks) auto


lemma map_of_base_record:
  "map_of (base_record p d x) key =
     (case key of
        None \<Rightarrow> None
      | Some k \<Rightarrow>
          if k = ''post_id'' then Some p
          else if k = ''date'' then Some (JStr d)
          else if k = ''_extracted_at'' then Some (JStr x)
          else if k \<in> set post_metrics_catalog then Some JNull else None)"
  by (cases key) (simp_all add: base_record_def map_of_nulls map_of_nulls_None)


subsection \<open>Updating the record from the metrics of the answer\<close>

lemma keys_update_metric: "map fst (update_metric m r) = map fst r"
  by (simp add: update_metric_def Let_def keys_setitem_present split: list.splits option.splits)

lemma keys_fold_update_metric: "map fst (fold update_metric ms r) = map fst r"
  by (induction ms arbitrary: r) (simp_all add: keys_update_metric)

lemma map_of_update_metric:
  "map_of (update_metric m r) =
     (case first_value m of
        None \<Rightarrow> map_of r
      | Some v \<Rightarrow>
          if map_of r (mr_name m) \<noteq> None then (map_of r)(mr_name m \<mapsto> v) else map_of r)"
  by (simp add: update_metric_def first_value_def Let_def map_of_setitem
      split: list.splits option.splits)

lemma present_update_metric: "map_of (update_metric m r) k = None \<longleftrightarrow> map_of r k = None"
  by (simp add: map_of_update_metric split: option.splits)

lemma present_fold_update_metric:
  "map_of (fold update_metric ms r) k = None \<longleftrightarrow> map_of r k = None"
  by (induction ms arbitrary: r) (simp_all add: present_update_metric)

text \<open>A column no metric of the answer writes to keeps its value.\<close>

lemma fold_update_metric_frame:
  "\<forall>m \<in> set ms. mr_name m = k \<longrightarrow> first_value m = None \<Longrightarrow>
   map_of (fold update_metric ms r) k = map_of r k"
proof (induction ms arbitrary: r)
  case Nil
  then show ?case by simp
next
  case (Cons m ms)
  have "map_of (update_metric m r) k = map_of r k"
    using Cons.prems by (auto simp: map_of_update_metric split: option.splits)
  with Cons show ?case by simp
qed

text \<open>The last metric that writes to a column of the record decides its value.\<close>

lemma fold_update_metric_last:
  assumes "first_value m = Some v" and "map_of r (mr_name m) \<noteq> None"
    and "\<forall>m' \<in> set suf. mr_name m' = mr_name m \<longrightarrow> first_value m' = None"
  shows "map_of (fold update_metric (pre @ m # suf) r) (mr_name m) = Some v"
proof -
  let ?r1 = "fold update_metric pre r"
  have "map_of ?r1 (mr_name m) \<noteq> None"
    using assms(2) by (simp add: present_fold_update_metric)
  then have "map_of (update_metric m ?r1) (mr_name m) = Some v"
    using assms(1) by (simp add: map_of_update_metric)
  then show ?thesis
    using fold_update_metric_frame [OF assms(3)] by simp
qed




lemma first_value_Cons:
  "mr_values m = Some (first # rest) \<Longrightarrow>
   first_value m = Some (case ve_value first of None \<Rightarrow> JNull | Some v \<Rightarrow> v)"
  by (simp add: first_value_def)

section \<open>Properties of the flattener\<close>

subsection \<open>The grouping loop as a list of stores\<close>

lemma process_value_entry_alt:
  "process_value_entry e p k ve st =
     (case entry_date e ve of None \<Rightarrow> st | Some d \<Rightarrow> add_metric e p d k (entry_value ve) st)"
  unfolding process_value_entry_def entry_date_def entry_value_def Let_def by simp

lemma fold_process_value_entry:
  "fold (process_value_entry e p k) vs st = apply_writes e p (entry_writes e k vs) st"
proof (induction vs arbitrary: st)
  case Nil
  then show ?case by (simp add: apply_writes_def entry_writes_def map_filter_simps)
next
  case (Cons ve vs)
  show ?case
  proof (cases "entry_date e ve")
    case None
    then show ?thesis
      using Cons.IH [of st]
      by (simp add: process_value_entry_alt apply_writes_def entry_writes_def map_filter_simps)
  next
    case (Some d)
    then show ?thesis
      using Cons.IH [of "add_metric e p d k (entry_value ve) st"]
      by (simp add: process_value_entry_alt apply_writes_def entry_writes_def map_filter_simps)
  qed
qed

lemma process_metric_response_writes:
  "process_metric_response e p m st = apply_writes e p (writes e m) st"
proof (cases "day_values m = []")
  case True
  then show ?thesis
    by (auto simp: process_metric_response_def writes_def day_values_def Let_def
        apply_writes_def entry_writes_def map_filter_simps split: if_splits)
next
  case False
  then show ?thesis
    by (auto simp: process_metric_response_def writes_def day_values_def Let_def
        fold_process_value_entry split: if_splits)
qed

lemma apply_writes_append:
  "apply_writes e p (ws @ ws') st = apply_writes e p ws' (apply_writes e p ws st)"
  by (simp add: apply_writes_def)

lemma apply_writes_Nil: "apply_writes e p [] st = st"
  by (simp add: apply_writes_def)

lemma apply_writes_Cons:
  "apply_writes e p ((d, k, v) # ws) st = apply_writes e p ws (add_metric e p d k v st)"
  by (simp add: apply_writes_def)

lemma fold_process_metric_response:
  "fold (process_metric_response e p) items st =
     apply_writes e p (concat (map (writes e) items)) st"
  by (induction items arbitrary: st)
     (simp_all add: apply_writes_Nil apply_writes_append process_metric_response_writes)

lemma group_by_date_writes:
  "group_by_date e n p items = apply_writes e p (concat (map (writes e) items)) ([], n)"
  by (simp add: group_by_date_def fold_process_metric_response)

subsection \<open>Cells\<close>

lemma cell_setitem:
  "cell (setitem d r mbd) d' k = (if d' = d then map_of r k else cell mbd d' k)"
  by (simp add: cell_def map_of_setitem)

lemma cell_add_metric_same: "cell (fst (add_metric e p d k v st)) d k = Some v"
  by (cases st) (simp add: add_metric_def cell_setitem map_of_setitem split: option.splits)

lemma cell_add_metric_other_date:
  "d' \<noteq> d \<Longrightarrow> cell (fst (add_metric e p d k v st)) d' k' = cell (fst st) d' k'"
  by (cases st) (simp add: add_metric_def cell_setitem split: option.splits)

lemma cell_add_metric_other_key:
  "k' \<noteq> k \<Longrightarrow> map_of (fst st) d \<noteq> None \<Longrightarrow>
   cell (fst (add_metric e p d k v st)) d k' = cell (fst st) d k'"
  by (cases st) (auto simp: add_metric_def cell_setitem map_of_setitem cell_def split: option.splits)

lemma date_add_metric: "map_of (fst (add_metric e p d k v st)) d \<noteq> None"
  by (cases st) (simp add: add_metric_def map_of_setitem split: option.splits)

lemma date_add_metric_mono:
  "map_of (fst st) d' \<noteq> None \<Longrightarrow> map_of (fst (add_metric e p d k v st)) d' \<noteq> None"
  by (cases st) (simp add: add_metric_def map_of_setitem split: option.splits)

text \<open>A cell of an existing date that no store of the list addresses keeps its value.\<close>

lemma cell_apply_writes_frame:
  assumes "\<forall>(d', k', v') \<in> set ws. \<not> (d' = d \<and> k' = k)" and "map_of (fst st) d \<noteq> None"
  shows "cell (fst (apply_writes e p ws st)) d k = cell (fst st) d k"
  using assms
proof (induction ws arbitrary: st)
  case Nil
  then show ?case by (simp add: apply_writes_Nil)
next
  case (Cons w ws)
  obtain d' k' v' where w: "w = (d', k', v')" by (cases w)
  let ?st = "add_metric e p d' k' v' st"
  have other: "\<not> (d' = d \<and> k' = k)" using Cons.prems(1) w by simp
  have "cell (fst ?st) d k = cell (fst st) d k"
  proof (cases "d' = d")
    case True
    then have "k \<noteq> k'" using other by auto
    then show ?thesis using True Cons.prems(2) by (simp add: cell_add_metric_other_key)
  next
    case False
    then show ?thesis by (simp add: cell_add_metric_other_date)
  qed
  moreover have "map_of (fst ?st) d \<noteq> None"
    using Cons.prems(2) by (rule date_add_metric_mono)
  moreover have "\<forall>(d', k', v') \<in> set ws. \<not> (d' = d \<and> k' = k)"
    using Cons.prems(1) by simp
  ultimately show ?case
    unfolding w apply_writes_Cons using Cons.IH [of ?st] by simp
qed

text \<open>The last store to a cell decides its value.\<close>

lemma cell_apply_writes_last:
  assumes "\<forall>(d', k', v') \<in> set ws2. \<not> (d' = d \<and> k' = k)"
  shows "cell (fst (apply_writes e p (ws1 @ (d, k, v) # ws2) st)) d k = Some v"
proof -
  let ?st = "add_metric e p d k v (apply_writes e p ws1 st)"
  have "cell (fst (apply_writes e p ws2 ?st)) d k = cell (fst ?st) d k"
    using assms date_add_metric by (rule cell_apply_writes_frame)
  then show ?thesis
    by (simp add: apply_writes_append apply_writes_Cons cell_add_metric_same)
qed

subsection \<open>Keys, and a second pass over the same stores\<close>

lemma distinct_setitem: "distinct (map fst d) \<Longrightarrow> distinct (map fst (setitem k v d))"
  by (simp add: keys_setitem)

lemma set_setitem_subset: "set (setitem k v d) \<subseteq> insert (k, v) (set d)"
  by (induction d) auto

lemma distinct_keys_setitem:
  "distinct_keys mbd \<Longrightarrow> distinct (map fst r) \<Longrightarrow> distinct_keys (setitem d r mbd)"
  unfolding distinct_keys_def using set_setitem_subset [of d r mbd]
  by (auto simp: distinct_setitem)

lemma distinct_new_date_entry: "distinct (map fst (new_date_entry p d x))"
  by (simp add: new_date_entry_def)

lemma distinct_keys_row:
  "distinct_keys mbd \<Longrightarrow> map_of mbd d = Some r \<Longrightarrow> distinct (map fst r)"
  unfolding distinct_keys_def by (auto dest: map_of_SomeD)

lemma distinct_keys_add_metric:
  "distinct_keys (fst st) \<Longrightarrow> distinct_keys (fst (add_metric e p d k v st))"
  by (cases st)
     (auto simp: add_metric_def distinct_keys_setitem distinct_setitem distinct_new_date_entry
           distinct_keys_row split: option.splits)

lemma distinct_keys_apply_writes:
  "distinct_keys (fst st) \<Longrightarrow> distinct_keys (fst (apply_writes e p ws st))"
proof (induction ws arbitrary: st)
  case Nil
  then show ?case by (simp add: apply_writes_Nil)
next
  case (Cons w ws)
  obtain d k v where w: "w = (d, k, v)" by (cases w)
  show ?case unfolding w apply_writes_Cons
    using Cons.prems by (intro Cons.IH distinct_keys_add_metric)
qed

lemma shape_setitem:
  "map_of mbd d = Some r \<Longrightarrow> map fst r' = map fst r \<Longrightarrow> shape (setitem d r' mbd) = shape mbd"
  by (induction mbd) (auto simp: shape_def split: if_splits)

lemma shape_add_metric:
  assumes "cell (fst st) d k \<noteq> None"
  shows "shape (fst (add_metric e p d k v st)) = shape (fst st)"
    and "snd (add_metric e p d k v st) = snd st"
proof -
  obtain mbd n where st: "st = (mbd, n)" by (cases st)
  from assms obtain r where r: "map_of mbd d = Some r" and k: "map_of r k \<noteq> None"
    by (auto simp: st cell_def split: option.splits)
  have "map fst (setitem k v r) = map fst r"
    using k by (rule keys_setitem_present)
  then show "shape (fst (add_metric e p d k v st)) = shape (fst st)"
    using r by (simp add: st add_metric_def shape_setitem)
  show "snd (add_metric e p d k v st) = snd st"
    using r by (simp add: st add_metric_def)
qed

lemma cell_date: "cell mbd d k \<noteq> None \<Longrightarrow> map_of mbd d \<noteq> None"
  by (auto simp: cell_def split: option.splits)

lemma cell_add_metric_mono:
  assumes "cell (fst st) d' k' \<noteq> None"
  shows "cell (fst (add_metric e p d k v st)) d' k' \<noteq> None"
proof (cases "d' = d")
  case True
  show ?thesis
  proof (cases "k' = k")
    case True
    with \<open>d' = d\<close> show ?thesis by (simp add: cell_add_metric_same)
  next
    case False
    with \<open>d' = d\<close> assms show ?thesis
      using cell_date [OF assms] by (simp add: cell_add_metric_other_key)
  qed
next
  case False
  with assms show ?thesis by (simp add: cell_add_metric_other_date)
qed

text \<open>Stores to cells that are all there change neither the keys nor the counter.\<close>

lemma shape_apply_writes:
  assumes "\<forall>(d, k, v) \<in> set ws. cell (fst st) d k \<noteq> None"
  shows "shape (fst (apply_writes e p ws st)) = shape (fst st) \<and>
         snd (apply_writes e p ws st) = snd st"
  using assms
proof (induction ws arbitrary: st)
  case Nil
  then show ?case by (simp add: apply_writes_Nil)
next
  case (Cons w ws)
  obtain d k v where w: "w = (d, k, v)" by (cases w)
  let ?st = "add_metric e p d k v st"
  have here: "cell (fst st) d k \<noteq> None" using Cons.prems w by simp
  have "cell (fst ?st) d' k' \<noteq> None" if "(d', k', v') \<in> set ws" for d' k' v'
  proof -
    have "cell (fst st) d' k' \<noteq> None" using Cons.prems that by auto
    then show ?thesis by (rule cell_add_metric_mono)
  qed
  then have "\<forall>(d', k', v') \<in> set ws. cell (fst ?st) d' k' \<noteq> None"
    by blast
  from Cons.IH [OF this] show ?case
    unfolding w apply_writes_Cons using shape_add_metric [OF here] by simp
qed

text \<open>After a list of stores, every cell it addresses is there.\<close>

lemma written_cell:
  assumes "(d, k, v) \<in> set ws"
  shows "\<exists>v'. cell (fst (apply_writes e p ws st)) d k = Some v' \<and>
              (\<forall>st'. cell (fst (apply_writes e p ws st')) d k = Some v')"
proof -
  let ?P = "\<lambda>w. fst w = d \<and> fst (snd w) = k"
  have "\<exists>w \<in> set ws. ?P w" using assms by force
  from split_list_last_prop [OF this]
  obtain ws1 w ws2 where ws: "ws = ws1 @ w # ws2" and w: "?P w" and rest: "\<forall>z \<in> set ws2. \<not> ?P z"
    by blast
  obtain v' where w': "w = (d, k, v')" using w by (cases w) auto
  have "\<forall>(d', k', v') \<in> set ws2. \<not> (d' = d \<and> k' = k)"
    using rest by auto
  then have "cell (fst (apply_writes e p (ws1 @ (d, k, v') # ws2) st')) d k = Some v'" for st'
    by (rule cell_apply_writes_last)
  then show ?thesis unfolding ws w' by blast
qed

lemma shape_date: "shape a = shape b \<Longrightarrow> (map_of a d = None) = (map_of b d = None)"
proof -
  assume "shape a = shape b"
  then have "map fst (shape a) = map fst (shape b)" by simp
  then have "map fst a = map fst b" by (simp add: shape_def case_prod_unfold comp_def)
  then have "fst ` set a = fst ` set b" by (metis set_map)
  then show ?thesis by (simp add: map_of_eq_None_iff)
qed

lemma dict_eqI:
  "distinct (map fst xs) \<Longrightarrow> map fst xs = map fst ys \<Longrightarrow> map_of xs = map_of ys \<Longrightarrow> xs = ys"
proof (induction xs arbitrary: ys)
  case Nil
  then show ?case by simp
next
  case (Cons x xs)
  obtain y ys' where ys: "ys = y # ys'" using Cons.prems(2) by (cases ys) auto
  have k: "fst y = fst x" and keys: "map fst xs = map fst ys'"
    using Cons.prems(2) ys by simp_all
  have "map_of (x # xs) (fst x) = map_of (y # ys') (fst x)"
    using fun_cong [OF Cons.prems(3), of "fst x"] ys by simp
  then have v: "snd x = snd y" using k by simp
  have "map_of xs = map_of ys'"
  proof
    fix a
    show "map_of xs a = map_of ys' a"
    proof (cases "a = fst x")
      case True
      then have "a \<notin> fst ` set xs" using Cons.prems(1) by auto
      moreover have "a \<notin> fst ` set ys'" using calculation keys by (metis set_map)
      ultimately have "map_of xs a = None" and "map_of ys' a = None"
        by (simp_all add: map_of_eq_None_iff)
      then show ?thesis by simp
    next
      case False
      then show ?thesis
        using fun_cong [OF Cons.prems(3), of a] ys k by simp
    qed
  qed
  then have "xs = ys'" using Cons.IH [of ys'] Cons.prems(1) keys by simp
  then show ?case using ys k v by (simp add: prod_eq_iff)
qed

lemma by_date_eqI:
  "distinct_keys a \<Longrightarrow> shape a = shape b \<Longrightarrow> (\<forall>d k. cell a d k = cell b d k) \<Longrightarrow> a = b"
proof (induction a arbitrary: b)
  case Nil
  then show ?case by (simp add: shape_def)
next
  case (Cons x a)
  obtain d r where x: "x = (d, r)" by (cases x)
  obtain y b' where b: "b = y # b'" using Cons.prems(2) by (cases b) (auto simp: shape_def)
  obtain d' r' where y: "y = (d', r')" by (cases y)
  have d: "d' = d" and keys: "map fst r = map fst r'" and sh: "shape a = shape b'"
    using Cons.prems(2) by (simp_all add: shape_def x y b)
  have dist: "distinct (map fst r)" "distinct_keys a" "d \<notin> fst ` set a"
    using Cons.prems(1) by (auto simp: distinct_keys_def x)
  have "map_of r = map_of r'"
  proof
    fix k show "map_of r k = map_of r' k"
      using Cons.prems(3) [rule_format, of d k] by (simp add: cell_def x y b d)
  qed
  then have r: "r = r'" using dist(1) keys by (rule dict_eqI [rotated 2])
  have "\<forall>d2 k. cell a d2 k = cell b' d2 k"
  proof (intro allI)
    fix d2 k
    show "cell a d2 k = cell b' d2 k"
    proof (cases "d2 = d")
      case True
      have "map_of a d = None" using dist(3) by (simp add: map_of_eq_None_iff)
      moreover have "map_of b' d = None" using calculation shape_date [OF sh] by simp
      ultimately show ?thesis using True by (simp add: cell_def)
    next
      case False
      then show ?thesis
        using Cons.prems(3) [rule_format, of d2 k] by (simp add: cell_def x y b d)
    qed
  qed
  then have "a = b'" using Cons.IH [OF dist(2) sh] by simp
  then show ?case by (simp add: x y b d r)
qed

text \<open>Performing a list of stores a second time changes nothing.\<close>

lemma apply_writes_twice:
  assumes "distinct_keys (fst st)"
  shows "apply_writes e p ws (apply_writes e p ws st) = apply_writes e p ws st"
proof -
  let ?st1 = "apply_writes e p ws st"
  let ?st2 = "apply_writes e p ws ?st1"
  have there: "\<forall>(d, k, v) \<in> set ws. cell (fst ?st1) d k \<noteq> None"
    using written_cell [of _ _ _ ws e p st] by fastforce
  have sh: "shape (fst ?st2) = shape (fst ?st1)" and n: "snd ?st2 = snd ?st1"
    using shape_apply_writes [OF there] by simp_all
  have cells: "cell (fst ?st1) d k = cell (fst ?st2) d k" for d k
  proof (cases "\<exists>v. (d, k, v) \<in> set ws")
    case True
    then obtain v where "(d, k, v) \<in> set ws" by blast
    from written_cell [OF this, of e p st] show ?thesis by metis
  next
    case False
    then have none: "\<forall>(d', k', v') \<in> set ws. \<not> (d' = d \<and> k' = k)" by auto
    show ?thesis
    proof (cases "map_of (fst ?st1) d")
      case None
      then have "map_of (fst ?st2) d = None" using shape_date [OF sh, of d] by simp
      with None show ?thesis by (simp add: cell_def)
    next
      case (Some r)
      then have "map_of (fst ?st1) d \<noteq> None" by simp
      from cell_apply_writes_frame [OF none this] show ?thesis by simp
    qed
  qed
  have "distinct_keys (fst ?st1)"
    using assms by (rule distinct_keys_apply_writes)
  then have "fst ?st1 = fst ?st2"
    using sh cells by (intro by_date_eqI) simp_all
  then show ?thesis using n by (simp add: prod_eq_iff)
qed

subsection \<open>The yielded records\<close>

lemma map_of_add_missing:
  "map_of (add_missing defaults metrics) k =
     (case map_of metrics k of None \<Rightarrow> map_of defaults k | Some v \<Rightarrow> Some v)"
proof (induction defaults arbitrary: metrics)
  case Nil
  then show ?case by (simp add: add_missing_def split: option.splits)
next
  case (Cons kv defaults)
  obtain k0 v0 where kv: "kv = (k0, v0)" by (cases kv)
  let ?m = "case map_of metrics k0 of None \<Rightarrow> setitem k0 v0 metrics | Some _ \<Rightarrow> metrics"
  have step: "add_missing (kv # defaults) metrics = add_missing defaults ?m"
    by (simp add: add_missing_def kv)
  show ?case
    unfolding step Cons.IH
    by (auto simp: kv map_of_setitem split: option.splits)
qed


lemma flatten_rows:
  "flatten_daily_metrics_inner e n p items =
     map (add_missing missing_metrics) (map snd (fst (group_by_date e n p items)))"
  by (simp add: flatten_daily_metrics_inner_def case_prod_unfold comp_def)

lemma flatten_writes:
  "flatten_daily_metrics_inner e n p items =
     map (add_missing missing_metrics)
       (map snd (fst (apply_writes e p (concat (map (writes e) items)) ([], n))))"
  by (simp add: flatten_rows group_by_date_writes)

lemma entry_writes_append:
  "entry_writes e k (xs @ ys) = entry_writes e k xs @ entry_writes e k ys"
  by (simp add: entry_writes_def map_filter_def)


lemma entry_writes_keep:
  "entry_date e ve = Some d \<Longrightarrow>
   entry_writes e k (ve # vs) = (d, k, entry_value ve) # entry_writes e k vs"
  by (simp add: entry_writes_def map_filter_simps)

lemma entry_writes_dates:
  "(d, k', v) \<in> set (entry_writes e k vs) \<Longrightarrow> k' = k \<and> (\<exists>ve \<in> set vs. entry_date e ve = Some d)"
  by (auto simp: entry_writes_def map_filter_def)

lemma fst_add_metric_clock:
  assumes "\<forall>t t'. isoformat (now e t) = isoformat (now e' t')"
  shows "fst (add_metric e p d k v (mbd, n)) = fst (add_metric e' p d k v (mbd, n'))"
proof -
  have "isoformat (now e n) = isoformat (now e' n')" using assms by blast
  then show ?thesis by (simp add: add_metric_def split: option.splits)
qed

lemma fst_apply_writes_clock:
  assumes "\<forall>t t'. isoformat (now e t) = isoformat (now e' t')"
  shows "fst (apply_writes e p ws (mbd, n)) = fst (apply_writes e' p ws (mbd, n'))"
proof (induction ws arbitrary: mbd n n')
  case Nil
  then show ?case by (simp add: apply_writes_Nil)
next
  case (Cons w ws)
  obtain d k v where w: "w = (d, k, v)" by (cases w)
  obtain m1 n1 where s1: "add_metric e p d k v (mbd, n) = (m1, n1)"
    by (cases "add_metric e p d k v (mbd, n)")
  obtain m2 n2 where s2: "add_metric e' p d k v (mbd, n') = (m2, n2)"
    by (cases "add_metric e' p d k v (mbd, n')")
  have "m1 = m2" using fst_add_metric_clock [OF assms, of p d k v mbd n n'] s1 s2 by simp
  then show ?case
    unfolding w apply_writes_Cons s1 s2 using Cons.IH [of m2 n1 n2] by simp
qed

lemma writes_parser:
  assumes "fromisoformat_date e' = fromisoformat_date e"
  shows "writes e' m = writes e m"
proof -
  have "parse_date e' j = parse_date e j" for j
    using assms by (cases j) simp_all
  then have "entry_date e' = entry_date e"
    by (simp add: fun_eq_iff entry_date_def Let_def)
  then show ?thesis by (simp add: writes_def entry_writes_def)
qed



lemma example_entry_dates:
  "entry_date example_env \<lparr>ve_end_time = Some (JStr ''2024-01-15T08:00:00Z''), ve_value = v\<rparr>
     = Some ''2024-01-15''"
  "entry_date example_env \<lparr>ve_end_time = Some (JStr ''2024-01-16T08:00:00Z''), ve_value = v\<rparr>
     = Some ''2024-01-16''"
  "entry_date example_env not_a_date = None"
  by (simp_all add: entry_date_def example_env_def example_fromisoformat_date_def replace_Z_def
      not_a_date_def)

lemma group_no_period:
  "group_by_date example_env 0 ''1234'' [no_period_metric] =
     ([(''2024-01-15'',
        [(Some ''page_id'', JStr ''1234''), (Some ''date'', JStr ''2024-01-15''),
         (Some ''_extracted_at'', JStr ''2024-03-01T12:00:00.1''),
         (Some ''page_views_total'', JInt 7)])], 1)"
  by (simp add: group_by_date_def process_metric_response_def process_value_entry_def
      add_metric_def new_date_entry_def no_period_metric_def example_env_def example_now_def
      example_fromisoformat_date_def replace_Z_def)

lemma flatten_no_period:
  "flatten_daily_metrics_inner example_env 0 ''1234'' [no_period_metric] =
     [add_missing missing_metrics
        [(Some ''page_id'', JStr ''1234''), (Some ''date'', JStr ''2024-01-15''),
         (Some ''_extracted_at'', JStr ''2024-03-01T12:00:00.1''),
         (Some ''page_views_total'', JInt 7)]]"
  by (simp add: flatten_rows group_no_period)

section \<open>Properties of the post enrichment transform\<close>

lemma str_split_nonempty: "str_split sep s \<noteq> []"
  by (induction s) (auto split: list.splits)

lemma str_split_first:
  "str_split sep s = w # ws \<Longrightarrow> w = takeWhile (\<lambda>c. c \<noteq> sep) s"
  by (induction s arbitrary: w ws) (auto simp: str_split_nonempty split: if_splits list.splits)

lemma split_first_str:
  "split_first (JStr s) = Inr (takeWhile (\<lambda>c. c \<noteq> CHR ''_'') s)"
proof (cases "str_split CHR ''_'' s")
  case Nil
  then show ?thesis using str_split_nonempty by blast
next
  case (Cons w ws)
  then show ?thesis using str_split_first [OF Cons] by simp
qed

lemma add_post_fields_item_sep:
  assumes "map_of item ''id'' = Some (JStr s)" and "CHR ''_'' \<in> set s"
  shows "add_post_fields_item e n item =
           Inr (setitem ''_extracted_at'' (JStr (isoformat (now e n)))
                  (setitem ''page_id'' (JStr (takeWhile (\<lambda>c. c \<noteq> CHR ''_'') s)) item))"
  using assms by (simp add: add_post_fields_item_def split_first_str del: split_first.simps)

lemma add_post_fields_item_nosep:
  assumes "map_of item ''id'' = None \<or> (\<exists>s. map_of item ''id'' = Some (JStr s) \<and> CHR ''_'' \<notin> set s)"
  shows "add_post_fields_item e n item =
           Inr (setitem ''_extracted_at'' (JStr (isoformat (now e n))) item)"
  using assms by (auto simp: add_post_fields_item_def)

lemma add_post_fields_item_str:
  assumes "map_of item ''id'' = None \<or> (\<exists>s. map_of item ''id'' = Some (JStr s))"
  shows "\<exists>item'. add_post_fields_item e n item = Inr item'"
proof (cases "\<exists>s. map_of item ''id'' = Some (JStr s) \<and> CHR ''_'' \<in> set s")
  case True
  then show ?thesis using add_post_fields_item_sep by blast
next
  case False
  then have "map_of item ''id'' = None \<or>
             (\<exists>s. map_of item ''id'' = Some (JStr s) \<and> CHR ''_'' \<notin> set s)"
    using assms by auto
  then show ?thesis using add_post_fields_item_nosep by blast
qed

lemma add_post_fields_all:
  assumes "\<forall>item \<in> set items. map_of item ''id'' = None \<or> (\<exists>s. map_of item ''id'' = Some (JStr s))"
  shows "\<exists>yielded. add_post_fields e n items = (yielded, None) \<and>
           length yielded = length items \<and>
           (\<forall>i < length items. add_post_fields_item e (n + i) (items ! i) = Inr (yielded ! i))"
  using assms
proof (induction items arbitrary: n)
  case Nil
  then show ?case by simp
next
  case (Cons item items)
  obtain item' where item': "add_post_fields_item e n item = Inr item'"
    using add_post_fields_item_str [of item e n] Cons.prems by auto
  obtain yielded where y: "add_post_fields e (Suc n) items = (yielded, None)"
    and len: "length yielded = length items"
    and each: "\<forall>i < length items. add_post_fields_item e (Suc n + i) (items ! i) = Inr (yielded ! i)"
    using Cons.IH [of "Suc n"] Cons.prems by auto
  have "add_post_fields_item e (n + i) ((item # items) ! i) = Inr ((item' # yielded) ! i)"
    if "i < length (item # items)" for i
    using that item' each by (cases i) auto
  then show ?case using item' y len by simp
qed

section \<open>Where the values of a record come from\<close>








section \<open>The fan-out resource on decoded JSON\<close>





subsection \<open>Inputs of the documented shape\<close>

lemma py_get_entry_value:
  "py_get (entry_json ve) ''value'' JNull = Inr (case ve_value ve of None \<Rightarrow> JNull | Some v \<Rightarrow> v)"
  by (simp add: entry_json_def split: option.splits)

lemma py_get_metric_name:
  "py_get (metric_json m) ''name'' JNull = Inr (case mr_name m of None \<Rightarrow> JNull | Some s \<Rightarrow> JStr s)"
  by (simp add: metric_json_def split: option.splits)

lemma py_get_metric_values:
  "py_get (metric_json m) ''values'' (JArr []) =
     Inr (JArr (map entry_json (case mr_values m of None \<Rightarrow> [] | Some vs \<Rightarrow> vs)))"
  by (simp add: metric_json_def split: option.splits)

lemma py_key_in_name:
  "py_key_in (case name of None \<Rightarrow> JNull | Some s \<Rightarrow> JStr s) r =
     Inr (if map_of r name \<noteq> None then Some name else None)"
  by (cases name) simp_all

text \<open>On a metric object of the documented shape the loop body raises nothing.\<close>

lemma update_record_metric_json: "update_record (metric_json m) r = Inr (update_metric m r)"
proof (cases "case mr_values m of None \<Rightarrow> [] | Some vs \<Rightarrow> vs")
  case Nil
  then show ?thesis
    by (simp add: update_record_def py_get_metric_name py_get_metric_values update_metric_def)
next
  case (Cons first rest)
  then show ?thesis
    by (simp add: update_record_def py_get_metric_name py_get_metric_values update_metric_def
        py_get_entry_value py_key_in_name)
qed

lemma update_all_metric_json:
  "update_all (map metric_json ms) r = Inr (fold update_metric ms r)"
  by (induction ms arbitrary: r) (simp_all add: update_record_metric_json)

lemma apply_answer_json:
  "apply_answer (answer_json data) r =
     Inr (fold update_metric (case data of None \<Rightarrow> [] | Some ms \<Rightarrow> ms) r)"
  by (cases data)
     (simp_all add: apply_answer_def data_items_def answer_json_def update_all_metric_json)

subsection \<open>One post\<close>

text \<open>The loop body on a post of the documented shape.\<close>

lemma process_post_json:
  "process_post e n (post_json post) =
     (let record = base_record (JStr (p_id post)) (fst (post_date e n (p_created_time post)))
                     (isoformat (now e (snd (post_date e n (p_created_time post)))));
          n' = Suc (Suc (snd (post_date e n (p_created_time post))))
      in case insights_answer e n post of
           Inl err \<Rightarrow> Inr (record, n')
         | Inr metrics_data \<Rightarrow>
             (case apply_answer metrics_data record of
                Inl err \<Rightarrow> Inl err
              | Inr record' \<Rightarrow> Inr (record', n')))"
proof -
  have ct: "map_of (case p_created_time post of None \<Rightarrow> [] | Some t \<Rightarrow> [(''created_time'', t)])
              ''created_time'' = p_created_time post"
    by (cases "p_created_time post") simp_all
  show ?thesis
    by (cases "post_date e n (p_created_time post)")
       (simp add: post_json_def ct insights_answer_def Let_def
          split: sum.splits request_exception.splits)
qed

lemma process_post_json_answer:
  assumes "insights_answer e n post = Inr (answer_json data)"
  shows "process_post e n (post_json post) =
     Inr (fold update_metric (case data of None \<Rightarrow> [] | Some ms \<Rightarrow> ms)
            (base_record (JStr (p_id post)) (fst (post_date e n (p_created_time post)))
               (isoformat (now e (snd (post_date e n (p_created_time post)))))),
          Suc (Suc (snd (post_date e n (p_created_time post)))))"
  using assms by (simp add: process_post_json apply_answer_json)



subsection \<open>The loop over the posts\<close>



subsection \<open>The resource\<close>



subsection \<open>A per-post call answered otherwise\<close>








lemma overwrite_answer:
  "insights_answer overwrite_env n post = Inr (answer_json (Some identity_metrics))"
  by (simp add: insights_answer_def overwrite_env_def)

section \<open>Claims\<close>

subsection \<open>C1\<close>





subsection \<open>C2\<close>




subsection \<open>C3\<close>

text \<open>
  C3. For an item whose \<open>id\<close> is a string with the separator \<open>_\<close>, the item yielded
  has \<open>page_id\<close> set to the part of the id before the first \<open>_\<close> and \<open>_extracted_at\<close>
  set to the reading of the clock, and every other field is that of the item. For an
  item whose \<open>id\<close> is absent or a string without \<open>_\<close>, only \<open>_extracted_at\<close> is set:
  \<open>page_id\<close> and every other field are as in the item. When every id is absent or a
  string, the transform yields one item for each item of its input and ends without an
  exception.
\<close>

theorem add_post_fields_page_id:
  "(\<forall>s. map_of item ''id'' = Some (JStr s) \<and> CHR ''_'' \<in> set s \<longrightarrow>
      (\<exists>item'. add_post_fields_item e n item = Inr item' \<and>
         map_of item' ''page_id'' = Some (JStr (takeWhile (\<lambda>c. c \<noteq> CHR ''_'') s)) \<and>
         map_of item' ''_extracted_at'' = Some (JStr (isoformat (now e n))) \<and>
         (\<forall>k. k \<noteq> ''page_id'' \<and> k \<noteq> ''_extracted_at'' \<longrightarrow> map_of item' k = map_of item k))) \<and>
   (map_of item ''id'' = None \<or>
    (\<exists>s. map_of item ''id'' = Some (JStr s) \<and> CHR ''_'' \<notin> set s) \<longrightarrow>
      (\<exists>item'. add_post_fields_item e n item = Inr item' \<and>
         map_of item' ''_extracted_at'' = Some (JStr (isoformat (now e n))) \<and>
         (\<forall>k. k \<noteq> ''_extracted_at'' \<longrightarrow> map_of item' k = map_of item k))) \<and>
   ((\<forall>item \<in> set items.
       map_of item ''id'' = None \<or> (\<exists>s. map_of item ''id'' = Some (JStr s))) \<longrightarrow>
      (\<exists>yielded. add_post_fields e n items = (yielded, None) \<and>
         length yielded = length items \<and>
         (\<forall>i < length items.
            add_post_fields_item e (n + i) (items ! i) = Inr (yielded ! i))))"
proof (intro conjI allI impI)
  fix s assume "map_of item ''id'' = Some (JStr s) \<and> CHR ''_'' \<in> set s"
  then have "add_post_fields_item e n item =
           Inr (setitem ''_extracted_at'' (JStr (isoformat (now e n)))
                  (setitem ''page_id'' (JStr (takeWhile (\<lambda>c. c \<noteq> CHR ''_'') s)) item))"
    by (simp add: add_post_fields_item_sep)
  then show "\<exists>item'. add_post_fields_item e n item = Inr item' \<and>
         map_of item' ''page_id'' = Some (JStr (takeWhile (\<lambda>c. c \<noteq> CHR ''_'') s)) \<and>
         map_of item' ''_extracted_at'' = Some (JStr (isoformat (now e n))) \<and>
         (\<forall>k. k \<noteq> ''page_id'' \<and> k \<noteq> ''_extracted_at'' \<longrightarrow> map_of item' k = map_of item k)"
    by (simp add: map_of_setitem)
next
  assume "map_of item ''id'' = None \<or>
    (\<exists>s. map_of item ''id'' = Some (JStr s) \<and> CHR ''_'' \<notin> set s)"
  then have "add_post_fields_item e n item =
           Inr (setitem ''_extracted_at'' (JStr (isoformat (now e n))) item)"
    by (rule add_post_fields_item_nosep)
  then show "\<exists>item'. add_post_fields_item e n item = Inr item' \<and>
         map_of item' ''_extracted_at'' = Some (JStr (isoformat (now e n))) \<and>
         (\<forall>k. k \<noteq> ''_extracted_at'' \<longrightarrow> map_of item' k = map_of item k)"
    by (simp add: map_of_setitem)
next
  assume "\<forall>item \<in> set items.
       map_of item ''id'' = None \<or> (\<exists>s. map_of item ''id'' = Some (JStr s))"
  then show "\<exists>yielded. add_post_fields e n items = (yielded, None) \<and>
         length yielded = length items \<and>
         (\<forall>i < length items.
            add_post_fields_item e (n + i) (items ! i) = Inr (yielded ! i))"
    by (rule add_post_fields_all)
qed

theorem add_post_fields_page_id_witness:
  "map_of example_post_item ''id'' = Some (JStr ''123456_789'') \<and>
   (\<exists>item'. add_post_fields_item example_env 0 example_post_item = Inr item' \<and>
      map_of item' ''page_id'' = Some (JStr ''123456'') \<and>
      map_of item' ''message'' = Some (JStr ''hello'')) \<and>
   map_of example_nosep_item ''id'' = Some (JStr ''nopagesep'') \<and>
   (\<exists>item'. add_post_fields_item example_env 0 example_nosep_item = Inr item' \<and>
      map_of item' ''page_id'' = None) \<and>
   (\<exists>yielded. add_post_fields example_env 0 [example_post_item, example_nosep_item]
      = (yielded, None) \<and> length yielded = 2)"
proof -
  note t = add_post_fields_page_id [of _ example_env 0]
  have id1: "map_of example_post_item ''id'' = Some (JStr ''123456_789'') \<and>
             CHR ''_'' \<in> set ''123456_789''"
    by (simp add: example_post_item_def)
  have id2: "map_of example_nosep_item ''id'' = None \<or>
             (\<exists>s. map_of example_nosep_item ''id'' = Some (JStr s) \<and> CHR ''_'' \<notin> set s)"
    by (simp add: example_nosep_item_def)
  have ids: "\<forall>item \<in> set [example_post_item, example_nosep_item].
               map_of item ''id'' = None \<or> (\<exists>s. map_of item ''id'' = Some (JStr s))"
    by (simp add: example_post_item_def example_nosep_item_def)
  from t [of example_post_item, THEN conjunct1, rule_format, OF id1]
  obtain item1 where
    "add_post_fields_item example_env 0 example_post_item = Inr item1"
    "map_of item1 ''page_id'' = Some (JStr (takeWhile (\<lambda>c. c \<noteq> CHR ''_'') ''123456_789''))"
    "\<forall>k. k \<noteq> ''page_id'' \<and> k \<noteq> ''_extracted_at'' \<longrightarrow> map_of item1 k = map_of example_post_item k"
    by blast
  then have a: "\<exists>item'. add_post_fields_item example_env 0 example_post_item = Inr item' \<and>
      map_of item' ''page_id'' = Some (JStr ''123456'') \<and>
      map_of item' ''message'' = Some (JStr ''hello'')"
    by (simp add: example_post_item_def)
  from t [of example_nosep_item, THEN conjunct2, THEN conjunct1, rule_format, OF id2]
  obtain item2 where
    "add_post_fields_item example_env 0 example_nosep_item = Inr item2"
    "\<forall>k. k \<noteq> ''_extracted_at'' \<longrightarrow> map_of item2 k = map_of example_nosep_item k"
    by blast
  then have b: "\<exists>item'. add_post_fields_item example_env 0 example_nosep_item = Inr item' \<and>
      map_of item' ''page_id'' = None"
    by (simp add: example_nosep_item_def)
  from t [of _ "[example_post_item, example_nosep_item]", THEN conjunct2, THEN conjunct2,
      THEN mp, OF ids]
  have c: "\<exists>yielded. add_post_fields example_env 0 [example_post_item, example_nosep_item]
      = (yielded, None) \<and> length yielded = 2"
    by auto
  show ?thesis
    using a b c by (simp add: example_post_item_def example_nosep_item_def)
qed


subsection \<open>C4\<close>




subsection \<open>C5\<close>




subsection \<open>C6\<close>

text \<open>
  C6. The records yielded are determined by the input, the parser and the timestamp: two
  runs with the same parser whose clocks give one and the same timestamp yield the same
  list of records, whenever they start and whatever else differs. Feeding the input
  twice in a row yields the same list of records as feeding it once, for any clock. And
  the last value-point in input order for a date and a metric name is the one the
  yielded record of that date holds under that name.
\<close>

theorem flatten_deterministic_last_write_wins:
  "(fromisoformat_date e' = fromisoformat_date e \<and>
    (\<forall>t t'. isoformat (now e t) = isoformat (now e' t')) \<longrightarrow>
      flatten_daily_metrics_inner e n page_id items =
      flatten_daily_metrics_inner e' n' page_id items) \<and>
   flatten_daily_metrics_inner e n page_id (items @ items) =
     flatten_daily_metrics_inner e n page_id items \<and>
   (\<forall>pre m suf xs ve ys d.
      items = pre @ m # suf \<and> day_values m = xs @ ve # ys \<and> entry_date e ve = Some d \<and>
      (\<forall>ve' \<in> set ys. entry_date e ve' \<noteq> Some d) \<and>
      (\<forall>m' \<in> set suf. mr_name m' = mr_name m \<longrightarrow>
         (\<forall>ve' \<in> set (day_values m'). entry_date e ve' \<noteq> Some d)) \<longrightarrow>
      (\<exists>metrics.
         map_of (fst (group_by_date e n page_id items)) d = Some metrics \<and>
         add_missing missing_metrics metrics \<in> set (flatten_daily_metrics_inner e n page_id items) \<and>
         map_of (add_missing missing_metrics metrics) (mr_name m) = Some (entry_value ve)))"
proof (intro conjI allI impI)
  assume same: "fromisoformat_date e' = fromisoformat_date e \<and>
                (\<forall>t t'. isoformat (now e t) = isoformat (now e' t'))"
  then have parser: "fromisoformat_date e' = fromisoformat_date e"
    and clock: "\<forall>t t'. isoformat (now e t) = isoformat (now e' t')"
    by blast+
  have "writes e' = writes e"
    using writes_parser [OF parser] by (rule ext)
  moreover have "fst (apply_writes e page_id ws ([], n)) = fst (apply_writes e' page_id ws ([], n'))"
    for ws using clock by (rule fst_apply_writes_clock)
  ultimately show "flatten_daily_metrics_inner e n page_id items =
                   flatten_daily_metrics_inner e' n' page_id items"
    by (simp add: flatten_writes)
next
  have "distinct_keys (fst ([] :: (string, row) dict, n))" by (simp add: distinct_keys_def)
  from apply_writes_twice [OF this]
  show "flatten_daily_metrics_inner e n page_id (items @ items) =
        flatten_daily_metrics_inner e n page_id items"
    by (simp add: flatten_writes apply_writes_append)
next
  fix pre m suf xs ve ys d
  assume a: "items = pre @ m # suf \<and> day_values m = xs @ ve # ys \<and> entry_date e ve = Some d \<and>
      (\<forall>ve' \<in> set ys. entry_date e ve' \<noteq> Some d) \<and>
      (\<forall>m' \<in> set suf. mr_name m' = mr_name m \<longrightarrow>
         (\<forall>ve' \<in> set (day_values m'). entry_date e ve' \<noteq> Some d))"
  let ?k = "mr_name m"
  let ?ws1 = "concat (map (writes e) pre) @ entry_writes e ?k xs"
  let ?ws2 = "entry_writes e ?k ys @ concat (map (writes e) suf)"
  have ws: "concat (map (writes e) items) = ?ws1 @ (d, ?k, entry_value ve) # ?ws2"
    using a by (simp add: writes_def entry_writes_append entry_writes_keep)
  have "\<forall>(d', k', v') \<in> set ?ws2. \<not> (d' = d \<and> k' = ?k)"
    using a by (auto simp: writes_def dest!: entry_writes_dates)
  then have c: "cell (fst (group_by_date e n page_id items)) d ?k = Some (entry_value ve)"
    unfolding group_by_date_writes ws by (rule cell_apply_writes_last)
  then obtain metrics where m: "map_of (fst (group_by_date e n page_id items)) d = Some metrics"
    and v: "map_of metrics ?k = Some (entry_value ve)"
    by (auto simp: cell_def split: option.splits)
  have "metrics \<in> set (map snd (fst (group_by_date e n page_id items)))"
    using map_of_SomeD [OF m] by force
  then have "add_missing missing_metrics metrics \<in> set (flatten_daily_metrics_inner e n page_id items)"
    unfolding flatten_rows by (simp only: set_map) (rule imageI)
  moreover have "map_of (add_missing missing_metrics metrics) ?k = Some (entry_value ve)"
    using v by (simp add: map_of_add_missing)
  ultimately show "\<exists>metrics.
         map_of (fst (group_by_date e n page_id items)) d = Some metrics \<and>
         add_missing missing_metrics metrics \<in> set (flatten_daily_metrics_inner e n page_id items) \<and>
         map_of (add_missing missing_metrics metrics) (mr_name m) = Some (entry_value ve)"
    using m by blast
qed

theorem flatten_deterministic_last_write_wins_witness:
  "flatten_daily_metrics_inner fixed_clock_env 0 ''1234'' [fans_metric, fans_again] =
     flatten_daily_metrics_inner (fixed_clock_env\<lparr>get_insights := (\<lambda>t url. Inl RequestException)\<rparr>)
       5 ''1234'' [fans_metric, fans_again] \<and>
   flatten_daily_metrics_inner example_env 0 ''1234''
       ([fans_metric, fans_again] @ [fans_metric, fans_again]) =
     flatten_daily_metrics_inner example_env 0 ''1234'' [fans_metric, fans_again] \<and>
   (\<exists>metrics.
      map_of (fst (group_by_date example_env 0 ''1234'' [fans_metric, fans_again])) ''2024-01-15''
        = Some metrics \<and>
      add_missing missing_metrics metrics
        \<in> set (flatten_daily_metrics_inner example_env 0 ''1234'' [fans_metric, fans_again]) \<and>
      map_of (add_missing missing_metrics metrics) (Some ''page_fans'') = Some (JInt 20))"
proof -
  let ?items = "[fans_metric, fans_again]"
  let ?e' = "fixed_clock_env\<lparr>get_insights := (\<lambda>t url. Inl RequestException)\<rparr>"
  let ?v = "\<lparr>ve_end_time = Some (JStr ''2024-01-15T08:00:00Z''), ve_value = Some (JInt 20)\<rparr>"
  have fixed: "fromisoformat_date ?e' = fromisoformat_date fixed_clock_env \<and>
               (\<forall>t t'. isoformat (now fixed_clock_env t) = isoformat (now ?e' t'))"
    by (simp add: fixed_clock_env_def)
  have a: "flatten_daily_metrics_inner fixed_clock_env 0 ''1234'' ?items =
           flatten_daily_metrics_inner ?e' 5 ''1234'' ?items"
    using flatten_deterministic_last_write_wins [of ?e' fixed_clock_env 0 "''1234''" ?items 5,
        THEN conjunct1, rule_format, OF fixed] .
  have b: "flatten_daily_metrics_inner example_env 0 ''1234'' (?items @ ?items) =
           flatten_daily_metrics_inner example_env 0 ''1234'' ?items"
    using flatten_deterministic_last_write_wins [of example_env example_env 0 "''1234''" ?items 0,
        THEN conjunct2, THEN conjunct1] .
  have l1: "?items = [fans_metric] @ fans_again # []" by simp
  have l2: "day_values fans_again = [] @ ?v # []"
    by (simp add: day_values_def fans_again_def)
  have l3: "entry_date example_env ?v = Some ''2024-01-15''"
    by (simp add: example_entry_dates)
  have l4: "\<forall>ve' \<in> set []. entry_date example_env ve' \<noteq> Some ''2024-01-15''"
    by simp
  have l5: "\<forall>m' \<in> set []. mr_name m' = mr_name fans_again \<longrightarrow>
         (\<forall>ve' \<in> set (day_values m'). entry_date example_env ve' \<noteq> Some ''2024-01-15'')"
    by simp
  note last = conjI [OF l1 conjI [OF l2 conjI [OF l3 conjI [OF l4 l5]]]]
  have c: "\<exists>metrics.
      map_of (fst (group_by_date example_env 0 ''1234'' ?items)) ''2024-01-15'' = Some metrics \<and>
      add_missing missing_metrics metrics
        \<in> set (flatten_daily_metrics_inner example_env 0 ''1234'' ?items) \<and>
      map_of (add_missing missing_metrics metrics) (mr_name fans_again) = Some (entry_value ?v)"
    using flatten_deterministic_last_write_wins [of example_env example_env 0 "''1234''" ?items 0,
        THEN conjunct2, THEN conjunct2, rule_format, OF last] .
  have "mr_name fans_again = Some ''page_fans''" and "entry_value ?v = JInt 20"
    by (simp_all add: fans_again_def entry_value_def)
  with a b c show ?thesis by simp
qed


subsection \<open>C7\<close>

text \<open>
  C7, as the claim states it, fails for an object without \<^verbatim>\<open>period\<close>: the code reads
  \<^verbatim>\<open>metric_response.get("period", "day")\<close>, so the absent period counts as
  \<open>day\<close> and the value-point of the object is in the record yielded.
\<close>

theorem absent_period_counterexample:
  "mr_period no_period_metric = None \<and>
   mr_values no_period_metric =
     Some [\<lparr>ve_end_time = Some (JStr ''2024-01-15T08:00:00Z''), ve_value = Some (JInt 7)\<rparr>] \<and>
   length (flatten_daily_metrics_inner example_env 0 ''1234'' [no_period_metric]) = 1 \<and>
   map_of (flatten_daily_metrics_inner example_env 0 ''1234'' [no_period_metric] ! 0)
     (Some ''page_views_total'') = Some (JInt 7) \<and>
   map_of (flatten_daily_metrics_inner example_env 0 ''1234'' [no_period_metric] ! 0)
     (Some ''date'') = Some (JStr ''2024-01-15'')"
proof -
  have "mr_period no_period_metric = None"
    and "mr_values no_period_metric =
      Some [\<lparr>ve_end_time = Some (JStr ''2024-01-15T08:00:00Z''), ve_value = Some (JInt 7)\<rparr>]"
    by (simp_all add: no_period_metric_def)
  then show ?thesis
    by (simp add: flatten_no_period map_of_add_missing)
qed

text \<open>
  C7, amended. An object whose \<^verbatim>\<open>period\<close> is present and is not \<open>day\<close> contributes
  nothing: the flattener yields what it yields without the object. An object without
  \<^verbatim>\<open>period\<close> is processed as if its period were \<open>day\<close>.
\<close>

theorem period_filter:
  "(\<forall>p. mr_period m = Some p \<and> p \<noteq> JStr ''day'' \<longrightarrow>
      process_metric_response e page_id m st = st \<and>
      flatten_daily_metrics_inner e n page_id (pre @ m # suf) =
        flatten_daily_metrics_inner e n page_id (pre @ suf)) \<and>
   (mr_period m = None \<longrightarrow>
      process_metric_response e page_id m st =
        process_metric_response e page_id (m\<lparr>mr_period := Some (JStr ''day'')\<rparr>) st \<and>
      flatten_daily_metrics_inner e n page_id (pre @ m # suf) =
        flatten_daily_metrics_inner e n page_id (pre @ m\<lparr>mr_period := Some (JStr ''day'')\<rparr> # suf))"
proof (intro conjI allI impI)
  fix p assume p: "mr_period m = Some p \<and> p \<noteq> JStr ''day''"
  then have w: "writes e m = []"
    by (simp add: writes_def day_values_def entry_writes_def map_filter_simps)
  show "process_metric_response e page_id m st = st"
    by (simp add: process_metric_response_writes w apply_writes_Nil)
  show "flatten_daily_metrics_inner e n page_id (pre @ m # suf) =
        flatten_daily_metrics_inner e n page_id (pre @ suf)"
    by (simp add: flatten_writes w)
next
  assume "mr_period m = None"
  then have w: "writes e (m\<lparr>mr_period := Some (JStr ''day'')\<rparr>) = writes e m"
    by (simp add: writes_def day_values_def)
  show "process_metric_response e page_id m st =
        process_metric_response e page_id (m\<lparr>mr_period := Some (JStr ''day'')\<rparr>) st"
    by (simp add: process_metric_response_writes w)
  show "flatten_daily_metrics_inner e n page_id (pre @ m # suf) =
        flatten_daily_metrics_inner e n page_id (pre @ m\<lparr>mr_period := Some (JStr ''day'')\<rparr> # suf)"
    by (simp add: flatten_writes w)
qed

theorem period_filter_witness:
  "mr_period weekly_metric = Some (JStr ''week'') \<and> JStr ''week'' \<noteq> JStr ''day'' \<and>
   process_metric_response example_env ''1234'' weekly_metric ([], 0) = ([], 0) \<and>
   flatten_daily_metrics_inner example_env 0 ''1234'' [fans_metric, weekly_metric] =
     flatten_daily_metrics_inner example_env 0 ''1234'' [fans_metric] \<and>
   mr_period no_period_metric = None \<and>
   flatten_daily_metrics_inner example_env 0 ''1234'' [no_period_metric] =
     flatten_daily_metrics_inner example_env 0 ''1234''
       [no_period_metric\<lparr>mr_period := Some (JStr ''day'')\<rparr>]"
proof -
  have w: "mr_period weekly_metric = Some (JStr ''week'') \<and> JStr ''week'' \<noteq> JStr ''day''"
    by (simp add: weekly_metric_def)
  have n: "mr_period no_period_metric = None"
    by (simp add: no_period_metric_def)
  have "process_metric_response example_env ''1234'' weekly_metric ([], 0) = ([], 0)"
    using period_filter [of weekly_metric example_env "''1234''" "([], 0)"] w by blast
  moreover
  have "flatten_daily_metrics_inner example_env 0 ''1234'' ([fans_metric] @ weekly_metric # []) =
        flatten_daily_metrics_inner example_env 0 ''1234'' ([fans_metric] @ [])"
    using period_filter [of weekly_metric example_env "''1234''" _ 0 "[fans_metric]" "[]"] w by blast
  moreover
  have "flatten_daily_metrics_inner example_env 0 ''1234'' ([] @ no_period_metric # []) =
        flatten_daily_metrics_inner example_env 0 ''1234''
          ([] @ no_period_metric\<lparr>mr_period := Some (JStr ''day'')\<rparr> # [])"
    using period_filter [of no_period_metric example_env "''1234''" _ 0 "[]" "[]"] n by blast
  ultimately show ?thesis using w n by simp
qed


subsection \<open>C8\<close>




subsection \<open>C9\<close>





subsection \<open>C10\<close>

text \<open>
  C10. A metric of a successful answer is recognised when its name is any key of
  the record, the identifying fields included: the last metric of the answer named
  \<open>post_id\<close>, \<open>date\<close> or \<open>_extracted_at\<close> with a non-empty \<^verbatim>\<open>values\<close> list puts its
  first value into that field of the record yielded. In the example the record of post
  \<open>1234_2\<close> is yielded with the \<open>post_id\<close> \<open>999\<close>.
\<close>

theorem identity_fields_overwritten:
  assumes answer: "insights_answer e n post = Inr (answer_json (Some (pre @ metric # suf)))"
    and name: "mr_name metric = Some k"
    and identity: "k = ''post_id'' \<or> k = ''date'' \<or> k = ''_extracted_at''"
    and "values": "mr_values metric = Some (first # rest)"
    and last: "\<forall>m \<in> set suf. mr_name m = Some k \<longrightarrow> first_value m = None"
  shows "\<exists>record n'.
           process_post e n (post_json post) = Inr (record, n') \<and>
           map_of record (Some k) = Some (case ve_value first of None \<Rightarrow> JNull | Some v \<Rightarrow> v)"
proof -
  let ?initial = "base_record (JStr (p_id post)) (fst (post_date e n (p_created_time post)))
                   (isoformat (now e (snd (post_date e n (p_created_time post)))))"
  have "map_of ?initial (mr_name metric) \<noteq> None"
    using name identity by (auto simp: map_of_base_record)
  moreover have "\<forall>m \<in> set suf. mr_name m = mr_name metric \<longrightarrow> first_value m = None"
    using last name by simp
  ultimately have "map_of (fold update_metric (pre @ metric # suf) ?initial) (mr_name metric) =
      Some (case ve_value first of None \<Rightarrow> JNull | Some v \<Rightarrow> v)"
    using fold_update_metric_last [OF first_value_Cons [OF "values"]] by blast
  then show ?thesis
    using process_post_json_answer [OF answer] name by simp
qed

theorem identity_fields_overwritten_witness:
  "insights_answer overwrite_env 2 \<lparr>p_id = ''1234_2'', p_created_time = None\<rparr>
     = Inr (answer_json (Some identity_metrics)) \<and>
   (\<exists>record n'.
      process_post overwrite_env 2 (post_json \<lparr>p_id = ''1234_2'', p_created_time = None\<rparr>)
        = Inr (record, n') \<and>
      map_of record (Some ''post_id'') = Some (JStr ''999'')) \<and>
   JStr ''999'' \<noteq> JStr (p_id \<lparr>p_id = ''1234_2'', p_created_time = None\<rparr>)"
proof -
  let ?post = "\<lparr>p_id = ''1234_2'', p_created_time = None\<rparr>"
  let ?m = "\<lparr>mr_name = Some ''post_id'', mr_period = Some (JStr ''lifetime''),
             mr_values = Some [\<lparr>ve_end_time = None, ve_value = Some (JStr ''999'')\<rparr>]\<rparr>"
  let ?d = "\<lparr>mr_name = Some ''date'', mr_period = Some (JStr ''lifetime''),
             mr_values = Some [\<lparr>ve_end_time = None, ve_value = Some (JStr ''1999-12-31'')\<rparr>]\<rparr>"
  have a: "insights_answer overwrite_env 2 ?post = Inr (answer_json (Some ([] @ ?m # [?d])))"
    by (simp add: overwrite_answer identity_metrics_def)
  have "\<exists>r n'. process_post overwrite_env 2 (post_json ?post) = Inr (r, n') \<and>
          map_of r (Some ''post_id'') = Some (JStr ''999'')"
    using identity_fields_overwritten [OF a, of "''post_id''" "\<lparr>ve_end_time = None, ve_value = Some (JStr ''999'')\<rparr>" "[]"]
    by simp
  then show ?thesis by (simp add: overwrite_answer)
qed


end
